theory Spec2Isabelle
  imports Main
begin

section \<open>JavaScript values, JSON and the key-value store\<close>

text \<open>
  The two components keep a like flag in \<^verbatim>\<open>localStorage\<close>, a store from strings to
  strings. A flag is written with \<^verbatim>\<open>JSON.stringify\<close> of a boolean and read back with
  \<^verbatim>\<open>JSON.parse\<close>, which can return any JSON value or throw \<^verbatim>\<open>SyntaxError\<close>.

  The components observe a like state only through \<^verbatim>\<open>!v\<close> and \<^verbatim>\<open>v ? a : b\<close>, so a value
  that is not a boolean (null, a number, a string, an array, an object) is recorded
  with its truthiness alone.
\<close>

datatype js_error = SyntaxError

datatype jsval = JBool bool | JNonBool bool

fun truthy :: "jsval \<Rightarrow> bool" where
  "truthy (JBool b) = b"
| "truthy (JNonBool t) = t"

definition JSON_stringify :: "bool \<Rightarrow> string" where
  "JSON_stringify b = (if b then ''true'' else ''false'')"

text \<open>
  \<^verbatim>\<open>JSON.parse\<close> on the two texts a card writes is fixed here. What it returns on any
  other string (a number, \<^verbatim>\<open>null\<close>, text with white space around a literal, a thrown
  \<^verbatim>\<open>SyntaxError\<close>) is the argument \<open>other\<close>: every theorem below holds for each choice
  of it, hence for the platform's parser.
\<close>

definition JSON_parse :: "(string \<Rightarrow> js_error + jsval) \<Rightarrow> string \<Rightarrow> js_error + jsval" where
  "JSON_parse other s =
     (if s = ''true'' then Inr (JBool True)
      else if s = ''false'' then Inr (JBool False)
      else other s)"

text \<open>
  The closed examples below use stores whose entries are \<^verbatim>\<open>"true"\<close>, \<^verbatim>\<open>"false"\<close> or
  \<^verbatim>\<open>"oops"\<close>. The last is not JSON text and makes \<^verbatim>\<open>JSON.parse\<close> throw, so on these
  stores the platform's parser is \<open>JSON_parse malformed\<close>.
\<close>

definition malformed :: "string \<Rightarrow> js_error + jsval" where
  "malformed s = Inl SyntaxError"

type_synonym storage = "string \<rightharpoonup> string"

definition getItem :: "storage \<Rightarrow> string \<Rightarrow> string option" where
  "getItem st k = st k"

definition setItem :: "storage \<Rightarrow> string \<Rightarrow> string \<Rightarrow> storage" where
  "setItem st k v = st(k \<mapsto> v)"

definition removeItem :: "storage \<Rightarrow> string \<Rightarrow> storage" where
  "removeItem st k = st(k := None)"

text \<open>The template literal \<^verbatim>\<open>`card-${cardId}-liked`\<close>.\<close>

definition storage_key :: "string \<Rightarrow> string" where
  "storage_key cardId = ''card-'' @ cardId @ ''-liked''"

section \<open>The Card component\<close>

text \<open>
  The \<^verbatim>\<open>cardId\<close> prop is a string or \<^verbatim>\<open>null\<close> (its default): a \<open>string option\<close>.
  The test \<^verbatim>\<open>if (cardId)\<close> passes for a string that is not empty.

  The initialiser of \<^verbatim>\<open>useState\<close> runs once, when the card mounts. It can throw, since
  \<^verbatim>\<open>JSON.parse\<close> can.
\<close>

definition Card_init ::
  "(string \<Rightarrow> js_error + jsval) \<Rightarrow> storage \<Rightarrow> string option \<Rightarrow> bool \<Rightarrow> js_error + jsval" where
  "Card_init other st cardId initialLiked =
     (case cardId of
        None \<Rightarrow> Inr (JBool initialLiked)
      | Some i \<Rightarrow>
          if i \<noteq> [] then
            (case getItem st (storage_key i) of
               Some savedState \<Rightarrow> JSON_parse other savedState
             | None \<Rightarrow> Inr (JBool initialLiked))
          else Inr (JBool initialLiked))"

text \<open>The label the card renders: \<^verbatim>\<open>isLiked ? 'Liked' : 'Not Liked'\<close>.\<close>

definition statusLabel :: "jsval \<Rightarrow> string" where
  "statusLabel isLiked = (if truthy isLiked then ''Liked'' else ''Not Liked'')"

text \<open>
  \<^verbatim>\<open>toggleLike\<close> works on the card's own state, the store and, through the callback,
  the state \<open>'p\<close> of the parent. A callback is a function on the parent's state or
  absent (\<^verbatim>\<open>null\<close>); invoking it is applying it. The console is not modelled.
\<close>

definition toggleLike ::
  "string option \<Rightarrow> (string option \<Rightarrow> bool \<Rightarrow> 'p \<Rightarrow> 'p) option \<Rightarrow>
     jsval \<times> storage \<times> 'p \<Rightarrow> jsval \<times> storage \<times> 'p" where
  "toggleLike cardId onLikeChange = (\<lambda>(prevLiked, st, parent).
     let newLikedState = (\<not> truthy prevLiked);
         st' = (case cardId of
                  None \<Rightarrow> st
                | Some i \<Rightarrow>
                    if i \<noteq> [] then setItem st (storage_key i) (JSON_stringify newLikedState)
                    else st);
         parent' = (case onLikeChange of
                      Some f \<Rightarrow> f cardId newLikedState parent
                    | None \<Rightarrow> parent)
     in (JBool newLikedState, st', parent'))"

text \<open>
  \<^verbatim>\<open>handleDelete\<close>: \<open>confirmed\<close> is what \<^verbatim>\<open>window.confirm\<close> returned. The card's own like
  state is not an argument: the handler never touches it.
\<close>

definition handleDelete ::
  "bool \<Rightarrow> string option \<Rightarrow> (string option \<Rightarrow> 'p \<Rightarrow> 'p) option \<Rightarrow>
     storage \<times> 'p \<Rightarrow> storage \<times> 'p" where
  "handleDelete confirmed cardId onDelete = (\<lambda>(st, parent).
     if confirmed then
       let st' = (case cardId of
                    None \<Rightarrow> st
                  | Some i \<Rightarrow> if i \<noteq> [] then removeItem st (storage_key i) else st);
           parent' = (case onDelete of
                        Some f \<Rightarrow> f cardId parent
                      | None \<Rightarrow> parent)
       in (st', parent')
     else (st, parent))"

section \<open>The Gallery (App)\<close>

record card =
  card_id :: string
  title :: string
  initialLiked :: bool

definition initialCards :: "card list" where
  "initialCards =
     [\<lparr>card_id = ''react-dev'', title = ''React Development'', initialLiked = True\<rparr>,
      \<lparr>card_id = ''js-fundamentals'', title = ''JavaScript Fundamentals'', initialLiked = False\<rparr>,
      \<lparr>card_id = ''css-animations'', title = ''CSS Animations'', initialLiked = True\<rparr>,
      \<lparr>card_id = ''web-design'', title = ''Web Design Principles'', initialLiked = False\<rparr>]"

text \<open>
  A JavaScript \<^verbatim>\<open>Set\<close> keeps its members in insertion order, each once: a list without
  repetitions. The members of \<^verbatim>\<open>likedCards\<close> are the ids the effect adds and whatever
  a card passes as \<^verbatim>\<open>cardId\<close>, so they are strings or \<^verbatim>\<open>null\<close>.
\<close>

definition set_add :: "'a \<Rightarrow> 'a list \<Rightarrow> 'a list" where
  "set_add x xs = (if x \<in> set xs then xs else xs @ [x])"

definition set_delete :: "'a \<Rightarrow> 'a list \<Rightarrow> 'a list" where
  "set_delete x xs = removeAll x xs"

record gallery =
  cards :: "card list"
  likedCards :: "string option list"
  newCardTitle :: string
  isAddingCard :: bool

text \<open>The test of the effect for one card, and the effect's liked set.\<close>

definition liked_in_store :: "storage \<Rightarrow> card \<Rightarrow> bool" where
  "liked_in_store st c =
     (let savedState = getItem st (storage_key (card_id c))
      in savedState = Some ''true'' \<or> (savedState = None \<and> initialLiked c))"

definition likedSet :: "storage \<Rightarrow> card list \<Rightarrow> string option list" where
  "likedSet st cs =
     fold (\<lambda>c acc. if liked_in_store st c then set_add (Some (card_id c)) acc else acc) cs []"

definition handleLikeChange ::
  "string option \<Rightarrow> bool \<Rightarrow> 'a gallery_scheme \<Rightarrow> 'a gallery_scheme" where
  "handleLikeChange cardId isLiked g =
     g\<lparr>likedCards := (if isLiked then set_add cardId (likedCards g)
                       else set_delete cardId (likedCards g))\<rparr>"

definition handleCardDelete :: "string option \<Rightarrow> 'a gallery_scheme \<Rightarrow> 'a gallery_scheme" where
  "handleCardDelete cardId g =
     g\<lparr>cards := filter (\<lambda>c. Some (card_id c) \<noteq> cardId) (cards g),
       likedCards := set_delete cardId (likedCards g)\<rparr>"

text \<open>
  \<^verbatim>\<open>String.prototype.trim\<close> drops white space and line terminators at both ends. A
  string is a list of 8-bit characters here, read as the code units below 256; of
  those, JavaScript's white space is tab, line feed, vertical tab, form feed, carriage
  return, space and the no-break space.
\<close>

definition is_space :: "char \<Rightarrow> bool" where
  "is_space c = (of_char c \<in> {9, 10, 11, 12, 13, 32, 160 :: nat})"

definition trim :: "string \<Rightarrow> string" where
  "trim s = rev (dropWhile is_space (rev (dropWhile is_space s)))"

text \<open>
  \<^verbatim>\<open>Date.now()\<close> is the clock's milliseconds since the epoch, a natural number on a
  clock set after 1970; the template literal writes it in decimal.
\<close>

definition digit :: "nat \<Rightarrow> char" where
  "digit d = ''0123456789'' ! d"

fun decimal :: "nat \<Rightarrow> string" where
  "decimal n =
     (if n < 10 then [digit n]
      else decimal (n div 10) @ [digit (n mod 10)])"

declare decimal.simps [simp del]

definition new_id :: "nat \<Rightarrow> string" where
  "new_id now = ''card-'' @ decimal now"

definition handleAddCard :: "nat \<Rightarrow> 'a gallery_scheme \<Rightarrow> 'a gallery_scheme" where
  "handleAddCard now g =
     (if trim (newCardTitle g) \<noteq> [] then
        let newCard = \<lparr>card_id = new_id now, title = trim (newCardTitle g), initialLiked = False\<rparr>
        in g\<lparr>cards := cards g @ [newCard], newCardTitle := [], isAddingCard := False\<rparr>
      else g)"

definition likeCount :: "'a gallery_scheme \<Rightarrow> nat" where
  "likeCount g = length (likedCards g)"

definition totalCards :: "'a gallery_scheme \<Rightarrow> nat" where
  "totalCards g = length (cards g)"

text \<open>The Escape shortcut of the title input.\<close>

definition handleKeyPress :: "string \<Rightarrow> 'a gallery_scheme \<Rightarrow> 'a gallery_scheme" where
  "handleKeyPress key g =
     (if key = ''Escape'' then g\<lparr>isAddingCard := False, newCardTitle := []\<rparr> else g)"

section \<open>The error boundary\<close>

record boundary =
  hasError :: bool
  error :: "js_error option"

datatype add_section = AddButton | AddForm string bool

datatype node =
    ErrorPanel
  | Header nat nat int add_section
  | EmptyState
  | CardsGrid "(string \<times> string) list"
  | Footer

definition ErrorBoundary_init :: boundary where
  "ErrorBoundary_init = \<lparr>hasError = False, error = None\<rparr>"

definition getDerivedStateFromError :: "js_error \<Rightarrow> boundary" where
  "getDerivedStateFromError e = \<lparr>hasError = True, error = Some e\<rparr>"

text \<open>The \<^verbatim>\<open>onClick\<close> of the Try Again button.\<close>

definition ErrorBoundary_reset :: "boundary \<Rightarrow> boundary" where
  "ErrorBoundary_reset b = b\<lparr>hasError := False, error := None\<rparr>"

definition ErrorBoundary_render :: "boundary \<Rightarrow> node list \<Rightarrow> node list" where
  "ErrorBoundary_render b children = (if hasError b then [ErrorPanel] else children)"

section \<open>The page: Gallery, boundary, mounted cards and store\<close>

text \<open>
  The state of the running page is the Gallery's state, the boundary's state, the like
  state of every mounted card under its React key (the card's id), and the store.
  React asks for distinct keys among siblings. Two listed cards with one id share the
  state under it here; on the sample inputs below two separate instances would show
  the same, the later card being seeded from the flag the earlier one has stored.
\<close>

record page = gallery +
  boundary :: boundary
  instances :: "string \<rightharpoonup> jsval"
  store :: storage

text \<open>
  What the page shows under \<^verbatim>\<open><div className="app">\<close>: the boundary encloses the
  header, the card-list region and the footer. A card shows its title and its label.
\<close>

definition Card_render :: "(string \<rightharpoonup> jsval) \<Rightarrow> card \<Rightarrow> (string \<times> string) option" where
  "Card_render inst c = map_option (\<lambda>v. (title c, statusLabel v)) (inst (card_id c))"

definition App_render :: "page \<Rightarrow> node list" where
  "App_render p =
     ErrorBoundary_render (boundary p)
       [Header (totalCards p) (likeCount p) (int (totalCards p) - int (likeCount p))
          (if isAddingCard p then AddForm (newCardTitle p) (trim (newCardTitle p) = [])
           else AddButton),
        (if cards p = [] then EmptyState
         else CardsGrid (List.map_filter (Card_render (instances p)) (cards p))),
        Footer]"

text \<open>The number of cards on the screen whose label is Liked.\<close>

fun liked_views :: "node \<Rightarrow> nat" where
  "liked_views (CardsGrid vs) = length (filter (\<lambda>v. snd v = ''Liked'') vs)"
| "liked_views _ = 0"

definition renderedLiked :: "page \<Rightarrow> nat" where
  "renderedLiked p = sum_list (map liked_views (App_render p))"

text \<open>
  React renders the listed cards in order. A card with a mounted instance under its
  key keeps its state, any other card is mounted and runs its initialiser, and the
  instances of cards no longer listed are dropped. The first initialiser that throws
  ends the pass.
\<close>

fun mount_all ::
  "(string \<Rightarrow> js_error + jsval) \<Rightarrow> storage \<Rightarrow> card list \<Rightarrow> (string \<rightharpoonup> jsval) \<Rightarrow>
     js_error + (string \<rightharpoonup> jsval)" where
  "mount_all other st [] old = Inr Map.empty"
| "mount_all other st (c # cs) old =
     (case (case old (card_id c) of
              Some v \<Rightarrow> Inr v
            | None \<Rightarrow> Card_init other st (Some (card_id c)) (initialLiked c)) of
        Inl e \<Rightarrow> Inl e
      | Inr v \<Rightarrow>
          (case mount_all other st cs old of
             Inl e \<Rightarrow> Inl e
           | Inr m \<Rightarrow> Inr (m(card_id c \<mapsto> v))))"

text \<open>
  A render pass of the boundary's children: a throw is handed to
  \<^verbatim>\<open>getDerivedStateFromError\<close> and the children are unmounted; while the boundary
  holds an error its children are not rendered at all.
\<close>

definition commit :: "(string \<Rightarrow> js_error + jsval) \<Rightarrow> page \<Rightarrow> page" where
  "commit other p =
     (if hasError (boundary p) then p\<lparr>instances := Map.empty\<rparr>
      else
        (case mount_all other (store p) (cards p) (instances p) of
           Inl e \<Rightarrow> p\<lparr>boundary := getDerivedStateFromError e, instances := Map.empty\<rparr>
         | Inr m \<Rightarrow> p\<lparr>instances := m\<rparr>))"

text \<open>
  The effect of \<^verbatim>\<open>App\<close> with dependency \<^verbatim>\<open>[cards]\<close>: it runs after the first render and
  after every render in which \<^verbatim>\<open>setCards\<close> has put a new array in place.
\<close>

definition effect :: "page \<Rightarrow> page" where
  "effect p = p\<lparr>likedCards := likedSet (store p) (cards p)\<rparr>"

definition initial_load :: "(string \<Rightarrow> js_error + jsval) \<Rightarrow> storage \<Rightarrow> page" where
  "initial_load other st =
     effect (commit other
       \<lparr>cards = initialCards, likedCards = [], newCardTitle = [], isAddingCard = False,
        boundary = ErrorBoundary_init, instances = Map.empty, store = st\<rparr>)"

text \<open>
  What a user can do. Each control exists only while it is rendered: the like and
  delete buttons of a mounted card, the form while it is open, Try Again while the
  boundary shows its panel. \<open>Submit now\<close> carries the reading of \<^verbatim>\<open>Date.now()\<close>,
  \<open>ClickDelete k confirmed\<close> the answer to the prompt. Activating a card's button
  with Enter or space calls the same handler as a click. The length limit of the
  title input is the browser's, not the handlers', so \<open>TypeTitle\<close> takes any string.
\<close>

datatype event =
    ClickAddNew
  | TypeTitle string
  | Submit nat
  | Cancel
  | KeyPress string
  | ClickLike string
  | ClickDelete string bool
  | TryAgain

text \<open>
  The handlers on the page. \<open>click_like\<close> is \<^verbatim>\<open>toggleLike\<close> of the card under key \<open>k\<close>,
  \<open>click_delete\<close> its \<^verbatim>\<open>handleDelete\<close>, both with the callbacks \<^verbatim>\<open>App\<close> passes;
  \<open>submit\<close> is \<^verbatim>\<open>handleSubmit\<close>, which calls \<^verbatim>\<open>handleAddCard\<close>. Where \<^verbatim>\<open>setCards\<close> has been
  called, the render pass and the effect follow.
\<close>

definition click_like :: "string \<Rightarrow> page \<Rightarrow> page" where
  "click_like k p =
     (case instances p k of
        None \<Rightarrow> p
      | Some v \<Rightarrow>
          (case toggleLike (Some k) (Some handleLikeChange) (v, store p, p) of
             (v', st', p') \<Rightarrow> p'\<lparr>instances := (instances p')(k \<mapsto> v'), store := st'\<rparr>))"

definition click_delete :: "(string \<Rightarrow> js_error + jsval) \<Rightarrow> string \<Rightarrow> bool \<Rightarrow> page \<Rightarrow> page" where
  "click_delete other k confirmed p =
     (case instances p k of
        None \<Rightarrow> p
      | Some v \<Rightarrow>
          (case handleDelete confirmed (Some k) (Some handleCardDelete) (store p, p) of
             (st', p') \<Rightarrow>
               if confirmed then effect (commit other (p'\<lparr>store := st'\<rparr>))
               else p'\<lparr>store := st'\<rparr>))"

definition submit :: "(string \<Rightarrow> js_error + jsval) \<Rightarrow> nat \<Rightarrow> page \<Rightarrow> page" where
  "submit other now p =
     (if trim (newCardTitle p) \<noteq> [] then effect (commit other (handleAddCard now p))
      else handleAddCard now p)"

definition step :: "(string \<Rightarrow> js_error + jsval) \<Rightarrow> event \<Rightarrow> page \<Rightarrow> page" where
  "step other ev p =
     (if hasError (boundary p) then
        (case ev of
           TryAgain \<Rightarrow> commit other (p\<lparr>boundary := ErrorBoundary_reset (boundary p)\<rparr>)
         | _ \<Rightarrow> p)
      else
        (case ev of
           ClickAddNew \<Rightarrow> if isAddingCard p then p else p\<lparr>isAddingCard := True\<rparr>
         | TypeTitle s \<Rightarrow> if isAddingCard p then p\<lparr>newCardTitle := s\<rparr> else p
         | Submit now \<Rightarrow> if isAddingCard p then submit other now p else p
         | Cancel \<Rightarrow> if isAddingCard p then p\<lparr>isAddingCard := False, newCardTitle := []\<rparr> else p
         | KeyPress key \<Rightarrow> if isAddingCard p then handleKeyPress key p else p
         | ClickLike k \<Rightarrow> click_like k p
         | ClickDelete k confirmed \<Rightarrow> click_delete other k confirmed p
         | TryAgain \<Rightarrow> p))"

fun run :: "(string \<Rightarrow> js_error + jsval) \<Rightarrow> event list \<Rightarrow> page \<Rightarrow> page" where
  "run other [] p = p"
| "run other (ev # evs) p = run other evs (step other ev p)"

section \<open>Stores a card has written, consistent pages, sample inputs\<close>

text \<open>
  A card writes only \<^verbatim>\<open>"true"\<close> and \<^verbatim>\<open>"false"\<close>. A store is well formed when every
  entry under a card key is one of the two.
\<close>

definition wf_store :: "storage \<Rightarrow> bool" where
  "wf_store st = (\<forall>i. getItem st (storage_key i) \<in> {None, Some ''true'', Some ''false''})"

text \<open>
  The invariant of the page: no error is shown, the listed ids are distinct and not
  empty, exactly the listed cards are mounted, each with the boolean the store (or
  its seed) gives, and the liked set has the members the effect would compute.
\<close>

definition consistent :: "page \<Rightarrow> bool" where
  "consistent p \<longleftrightarrow>
     \<not> hasError (boundary p)
     \<and> distinct (map card_id (cards p))
     \<and> (\<forall>c \<in> set (cards p). card_id c \<noteq> [])
     \<and> wf_store (store p)
     \<and> dom (instances p) = card_id ` set (cards p)
     \<and> (\<forall>c \<in> set (cards p). instances p (card_id c) = Some (JBool (liked_in_store (store p) c)))
     \<and> distinct (likedCards p)
     \<and> set (likedCards p) = set (likedSet (store p) (cards p))"

text \<open>The readings of \<^verbatim>\<open>Date.now()\<close> in a run, one for each submission of the form.\<close>

fun clock_readings :: "event list \<Rightarrow> nat list" where
  "clock_readings [] = []"
| "clock_readings (Submit t # evs) = t # clock_readings evs"
| "clock_readings (_ # evs) = clock_readings evs"

text \<open>The number a decimal text denotes; it shows that \<open>decimal\<close> is injective.\<close>

definition dval :: "string \<Rightarrow> nat" where
  "dval s = foldl (\<lambda>a c. 10 * a + (of_char c - 48)) 0 s"

text \<open>
  Sample inputs. In \<open>two_adds_one_ms\<close> two cards are created at the same reading of the
  clock; \<open>like_between_adds\<close> also likes the first of them before the second exists.
\<close>

definition two_adds_one_ms :: "event list" where
  "two_adds_one_ms =
     [ClickAddNew, TypeTitle ''a'', Submit 5, ClickAddNew, TypeTitle ''b'', Submit 5]"

definition second_title_typed :: "event list" where
  "second_title_typed = [ClickAddNew, TypeTitle ''a'', Submit 5, ClickAddNew, TypeTitle ''b'']"

definition like_between_adds :: "event list" where
  "like_between_adds =
     [ClickAddNew, TypeTitle ''a'', Submit 5, ClickLike ''card-5'',
      ClickAddNew, TypeTitle ''b'', Submit 5]"

definition session :: "event list" where
  "session =
     [ClickAddNew, TypeTitle ''Algorithms'', Submit 5, ClickLike ''card-5'',
      ClickLike ''react-dev'', ClickDelete ''css-animations'' True,
      ClickAddNew, TypeTitle ''b'', Submit 6, ClickDelete ''card-6'' False]"

definition design_liked :: storage where
  "design_liked = [storage_key ''web-design'' \<mapsto> ''true'']"

definition react_unliked :: storage where
  "react_unliked = [storage_key ''react-dev'' \<mapsto> ''false'']"

definition react_liked :: storage where
  "react_liked = [storage_key ''react-dev'' \<mapsto> ''true'']"

definition js_unliked :: storage where
  "js_unliked = [storage_key ''js-fundamentals'' \<mapsto> ''false'']"

definition broken_store :: storage where
  "broken_store = [storage_key ''react-dev'' \<mapsto> ''oops'']"

definition seed_gallery :: gallery where
  "seed_gallery =
     \<lparr>cards = initialCards, likedCards = [Some ''react-dev'', Some ''css-animations''],
      newCardTitle = '' Algorithms '', isAddingCard = True\<rparr>"

definition seed_page :: page where
  "seed_page =
     \<lparr>cards = initialCards, likedCards = [Some ''react-dev'', Some ''css-animations''],
      newCardTitle = ''  '', isAddingCard = True, boundary = ErrorBoundary_init,
      instances = [''react-dev'' \<mapsto> JBool True, ''js-fundamentals'' \<mapsto> JBool False,
                   ''css-animations'' \<mapsto> JBool True, ''web-design'' \<mapsto> JBool False],
      store = Map.empty\<rparr>"

section \<open>Basic facts\<close>

lemma storage_key_inj [simp]: "storage_key a = storage_key b \<longleftrightarrow> a = b"
  by (simp add: storage_key_def)

lemma toggleLike_eq:
  "toggleLike cardId cb (v, st, parent) =
     (JBool (\<not> truthy v),
      (case cardId of
         None \<Rightarrow> st
       | Some i \<Rightarrow>
           if i \<noteq> [] then setItem st (storage_key i) (JSON_stringify (\<not> truthy v)) else st),
      (case cb of Some f \<Rightarrow> f cardId (\<not> truthy v) parent | None \<Rightarrow> parent))"
  by (simp add: toggleLike_def Let_def)

lemma handleDelete_eq:
  "handleDelete confirmed cardId cb (st, parent) =
     (if confirmed then
        ((case cardId of
            None \<Rightarrow> st
          | Some i \<Rightarrow> if i \<noteq> [] then removeItem st (storage_key i) else st),
         (case cb of Some f \<Rightarrow> f cardId parent | None \<Rightarrow> parent))
      else (st, parent))"
  by (simp add: handleDelete_def Let_def)

lemma set_add_set [simp]: "set (set_add x xs) = insert x (set xs)"
  by (auto simp add: set_add_def)

lemma set_add_distinct [simp]: "distinct (set_add x xs) = distinct xs"
  by (simp add: set_add_def)

lemma set_delete_set [simp]: "set (set_delete x xs) = set xs - {x}"
  by (auto simp add: set_delete_def)

lemma set_delete_distinct [simp]: "distinct xs \<Longrightarrow> distinct (set_delete x xs)"
  by (simp add: set_delete_def distinct_removeAll)

lemma likedSet_fold_set:
  "set (fold (\<lambda>c acc. if liked_in_store st c then set_add (Some (card_id c)) acc else acc) cs acc)
     = set acc \<union> (\<lambda>c. Some (card_id c)) ` {c \<in> set cs. liked_in_store st c}"
  by (induction cs arbitrary: acc) auto

lemma likedSet_fold_distinct:
  "distinct acc \<Longrightarrow>
   distinct (fold (\<lambda>c acc. if liked_in_store st c then set_add (Some (card_id c)) acc else acc) cs acc)"
  by (induction cs arbitrary: acc) auto

lemma set_likedSet:
  "set (likedSet st cs) = (\<lambda>c. Some (card_id c)) ` {c \<in> set cs. liked_in_store st c}"
  by (simp add: likedSet_def likedSet_fold_set)

lemma distinct_likedSet [simp]: "distinct (likedSet st cs)"
  by (simp add: likedSet_def likedSet_fold_distinct)

lemma Card_init_wf:
  assumes "i \<noteq> []" and "getItem st (storage_key i) \<in> {None, Some ''true'', Some ''false''}"
  shows "Card_init other st (Some i) d =
           Inr (JBool (getItem st (storage_key i) = Some ''true''
                       \<or> getItem st (storage_key i) = None \<and> d))"
  using assms by (auto simp add: Card_init_def JSON_parse_def)

subsection \<open>Generated ids\<close>

lemma digit_val: "d < 10 \<Longrightarrow> of_char (digit d) = 48 + d"
proof -
  assume "d < 10"
  then have "d \<in> {0, 1, 2, 3, 4, 5, 6, 7, 8, 9}" by auto
  then show ?thesis by (auto simp add: digit_def)
qed

lemma dval_decimal: "dval (decimal n) = n"
proof (induction n rule: decimal.induct)
  case (1 n)
  show ?case
  proof (cases "n < 10")
    case True
    then show ?thesis by (simp add: decimal.simps [of n] dval_def digit_val)
  next
    case False
    then have "dval (decimal (n div 10)) = n div 10" using 1 by simp
    then show ?thesis
      using False by (simp add: decimal.simps [of n] dval_def digit_val)
  qed
qed

lemma decimal_inj [simp]: "decimal a = decimal b \<longleftrightarrow> a = b"
  by (metis dval_decimal)

lemma new_id_inj [simp]: "new_id a = new_id b \<longleftrightarrow> a = b"
  by (simp add: new_id_def)

lemma new_id_not_seed: "new_id t \<notin> card_id ` set initialCards"
  by (simp add: new_id_def initialCards_def)

lemma new_id_nonempty [simp]: "new_id t \<noteq> []"
  by (simp add: new_id_def)

lemma new_id_5: "new_id 5 = ''card-5''"
  by (simp add: new_id_def decimal.simps digit_def)

section \<open>The Card component: seeding, toggling, deleting\<close>

text \<open>
  C2. A card whose id is a non-empty string (every card the Gallery lists) seeds its
  like state from the store: when a flag is stored under its key and parses to a
  boolean, the state, and so the label, is that boolean whatever the default seed
  \<open>d\<close> is; when no flag is stored, the state is the default seed.
\<close>

theorem Card_init_persisted_or_default:
  assumes "i \<noteq> []"
  shows "(getItem st (storage_key i) = Some s \<and> JSON_parse other s = Inr (JBool b) \<longrightarrow>
            Card_init other st (Some i) d = Inr (JBool b)
            \<and> statusLabel (JBool b) = (if b then ''Liked'' else ''Not Liked''))
       \<and> (getItem st (storage_key i) = None \<longrightarrow> Card_init other st (Some i) d = Inr (JBool d))"
  using assms by (simp add: Card_init_def statusLabel_def)

text \<open>
  The first seed card has default \<open>True\<close>: a stored \<^verbatim>\<open>"false"\<close> overrides it, an empty
  store leaves it.
\<close>

theorem Card_init_persisted_or_default_witness:
  "Card_init malformed react_unliked (Some ''react-dev'') True = Inr (JBool False)
   \<and> statusLabel (JBool False) = ''Not Liked''
   \<and> Card_init malformed Map.empty (Some ''react-dev'') True = Inr (JBool True)"
  using Card_init_persisted_or_default
      [of "''react-dev''" react_unliked "''false''" malformed False True]
    Card_init_persisted_or_default
      [of "''react-dev''" Map.empty "''false''" malformed False True]
  by (simp add: getItem_def JSON_parse_def react_unliked_def)

text \<open>
  C3, as amended. Two toggles in succession leave the like state at the boolean it
  stood for (the state itself when it was a boolean) and, for a card with a non-empty
  id, leave under the card's key the serialisation of that boolean. The store is
  therefore as before when it already held that entry; a card that had no entry ends
  with one. The like-change callback, when supplied, has run twice.
\<close>

theorem toggleLike_twice:
  "toggleLike cardId cb (toggleLike cardId cb (v, st, parent)) =
     (JBool (truthy v),
      (case cardId of
         None \<Rightarrow> st
       | Some i \<Rightarrow>
           if i \<noteq> [] then setItem st (storage_key i) (JSON_stringify (truthy v)) else st),
      (case cb of
         Some f \<Rightarrow> f cardId (truthy v) (f cardId (\<not> truthy v) parent)
       | None \<Rightarrow> parent))
   \<and> (getItem st (storage_key i) = Some (JSON_stringify (truthy v)) \<longrightarrow>
        setItem st (storage_key i) (JSON_stringify (truthy v)) = st)"
  by (auto simp add: toggleLike_eq setItem_def getItem_def split: option.splits)

theorem toggleLike_twice_witness:
  "toggleLike (Some ''js-fundamentals'') None
     (toggleLike (Some ''js-fundamentals'') None (JBool False, js_unliked, ()))
   = (JBool False, js_unliked, ())"
  using toggleLike_twice [of "Some ''js-fundamentals''" None "JBool False" js_unliked "()"
      "''js-fundamentals''"]
  by (simp add: getItem_def JSON_stringify_def js_unliked_def)

text \<open>
  The claim as stated fails for a card that was never toggled: before the two toggles
  the store has no entry under its key, afterwards it has one.
\<close>

theorem toggleLike_twice_store_counterexample:
  "getItem (fst (snd (toggleLike (Some ''js-fundamentals'') None
       (toggleLike (Some ''js-fundamentals'') None (JBool False, Map.empty, ())))))
     (storage_key ''js-fundamentals'')
   \<noteq> getItem Map.empty (storage_key ''js-fundamentals'')"
  by (simp add: toggleLike_eq getItem_def setItem_def)

text \<open>
  C7. A delete the user does not confirm changes nothing: the handler returns the
  store and the parent's state as they were, whatever the callback is, and the whole
  page (the card's like state and the card list included) is unchanged. Whenever the
  handler changes anything the prompt was confirmed; a confirmed delete of a card
  with a non-empty id removes its entry and applies the delete callback to the id.
\<close>

theorem handleDelete_unconfirmed_noop:
  "handleDelete False cardId cb (st, parent) = (st, parent)
   \<and> step other (ClickDelete k False) p = p
   \<and> (handleDelete confirmed cardId cb (st, parent) \<noteq> (st, parent) \<longrightarrow> confirmed)
   \<and> (i \<noteq> [] \<longrightarrow> handleDelete True (Some i) (Some f) (st, parent)
                        = (removeItem st (storage_key i), f (Some i) parent))"
  by (auto simp add: handleDelete_eq step_def click_delete_def split: option.splits)

theorem handleDelete_unconfirmed_noop_witness:
  "step malformed (ClickDelete ''react-dev'' False) seed_page = seed_page
   \<and> handleDelete False (Some ''react-dev'') (Some handleCardDelete) (react_liked, seed_gallery)
      = (react_liked, seed_gallery)
   \<and> handleDelete True (Some ''react-dev'') (Some handleCardDelete) (react_liked, seed_gallery)
      = (removeItem react_liked (storage_key ''react-dev''),
         handleCardDelete (Some ''react-dev'') seed_gallery)"
  using handleDelete_unconfirmed_noop
      [of "Some ''react-dev''" "Some handleCardDelete" react_liked seed_gallery malformed
        "''react-dev''" seed_page True "''react-dev''" handleCardDelete]
  by simp

text \<open>
  C10. A card without an id never touches the store: its initial state is the
  default seed whatever the store holds; a toggle flips the state, returns the store
  as it was and applies the like-change callback, when supplied, to \<^verbatim>\<open>null\<close> and the
  new value; a confirmed delete returns the store as it was and applies the delete
  callback, when supplied, to \<^verbatim>\<open>null\<close>.
\<close>

theorem Card_without_id_leaves_store:
  "Card_init other st None d = Inr (JBool d)
   \<and> toggleLike None cb (v, st, parent)
       = (JBool (\<not> truthy v), st,
          case cb of Some f \<Rightarrow> f None (\<not> truthy v) parent | None \<Rightarrow> parent)
   \<and> handleDelete True None dcb (st, parent)
       = (st, case dcb of Some f \<Rightarrow> f None parent | None \<Rightarrow> parent)"
  by (simp add: Card_init_def toggleLike_eq handleDelete_eq)

text \<open>Here the parent's state is the list of calls it has received.\<close>

theorem Card_without_id_leaves_store_witness:
  "Card_init malformed broken_store None True = Inr (JBool True)
   \<and> toggleLike None (Some (\<lambda>i b calls. calls @ [(i, Some b)])) (JBool True, broken_store, [])
       = (JBool False, broken_store, [(None, Some False)])
   \<and> handleDelete True None (Some (\<lambda>i calls. calls @ [(i, None)])) (broken_store, [])
       = (broken_store, [(None, None :: bool option)])"
  using Card_without_id_leaves_store
      [of malformed broken_store True "Some (\<lambda>i b calls. calls @ [(i, Some b)])" "JBool True" "[]"
        "Some (\<lambda>i calls. calls @ [(i, None)])"]
  by simp

section \<open>The Gallery: its liked set, adding and deleting\<close>

text \<open>
  C9. For a card with a non-empty id whose entry in the store is absent, \<^verbatim>\<open>"true"\<close> or
  \<^verbatim>\<open>"false"\<close>, the card seeds its like state with exactly the boolean the Gallery's
  effect tests, and in a list of distinct ids the card's id is in the effect's liked
  set exactly when that boolean is true.
\<close>

theorem gallery_check_agrees_with_card:
  assumes "card_id c \<noteq> []"
    and "getItem st (storage_key (card_id c)) \<in> {None, Some ''true'', Some ''false''}"
  shows "Card_init other st (Some (card_id c)) (initialLiked c) = Inr (JBool (liked_in_store st c))
       \<and> (c \<in> set cs \<and> distinct (map card_id cs) \<longrightarrow>
            (Some (card_id c) \<in> set (likedSet st cs)) = liked_in_store st c)"
proof -
  have "Card_init other st (Some (card_id c)) (initialLiked c) = Inr (JBool (liked_in_store st c))"
    using Card_init_wf [OF assms] by (simp add: liked_in_store_def Let_def)
  moreover have "(Some (card_id c) \<in> set (likedSet st cs)) = liked_in_store st c"
    if "c \<in> set cs" and "distinct (map card_id cs)"
  proof -
    have "c' = c" if "c' \<in> set cs" and "card_id c' = card_id c" for c'
      using that \<open>c \<in> set cs\<close> \<open>distinct (map card_id cs)\<close>
      by (meson distinct_map inj_onD)
    then show ?thesis
      using \<open>c \<in> set cs\<close> by (auto simp add: set_likedSet)
  qed
  ultimately show ?thesis by blast
qed

theorem gallery_check_agrees_with_card_witness:
  "Card_init malformed react_unliked (Some ''react-dev'') True = Inr (JBool False)
   \<and> Some ''react-dev'' \<notin> set (likedSet react_unliked initialCards)"
proof -
  let ?c = "\<lparr>card_id = ''react-dev'', title = ''React Development'', initialLiked = True\<rparr>"
  have a: "card_id ?c \<noteq> []" by simp
  have b: "getItem react_unliked (storage_key (card_id ?c)) \<in> {None, Some ''true'', Some ''false''}"
    by (simp add: getItem_def react_unliked_def)
  have l: "\<not> liked_in_store react_unliked ?c"
    by (simp add: liked_in_store_def getItem_def react_unliked_def)
  have m: "?c \<in> set initialCards \<and> distinct (map card_id initialCards)"
    by (simp add: initialCards_def)
  show ?thesis
    using gallery_check_agrees_with_card [OF a b, of malformed initialCards] l m by simp
qed

text \<open>
  C6. When the pending title is empty after trimming, adding a card changes nothing:
  the handler returns the Gallery's state as it was (card list, count and liked set
  included), and submitting the form leaves the whole page, the boundary's state
  included, as it was.
\<close>

theorem handleAddCard_blank_noop:
  assumes "trim (newCardTitle p) = []"
  shows "handleAddCard now p = p \<and> step other (Submit now) p = p"
  using assms by (simp add: handleAddCard_def step_def submit_def)

theorem handleAddCard_blank_noop_witness:
  "trim (newCardTitle seed_page) = [] \<and> step malformed (Submit 5) seed_page = seed_page
   \<and> totalCards (step malformed (Submit 5) seed_page) = 4"
proof -
  have t: "trim (newCardTitle seed_page) = []"
    by (simp add: seed_page_def trim_def is_space_def)
  have "totalCards seed_page = 4" by (simp add: seed_page_def totalCards_def initialCards_def)
  then show ?thesis using handleAddCard_blank_noop [OF t, of 5 malformed] t by simp
qed

text \<open>
  C4, as amended. When the pending title is not empty after trimming, adding a card
  appends one record at the end of the list: its id is \<^verbatim>\<open>card-\<close> followed by the
  clock's reading in decimal, its title the trimmed input, its default unliked. The
  count grows by one, the pending input is cleared and the form closed. The id differs
  from every listed id whenever each listed card is a seed card or was created at
  another reading of the clock.
\<close>

theorem handleAddCard_appends:
  assumes "trim (newCardTitle g) \<noteq> []"
  shows "cards (handleAddCard now g) =
           cards g @ [\<lparr>card_id = new_id now, title = trim (newCardTitle g), initialLiked = False\<rparr>]
       \<and> totalCards (handleAddCard now g) = totalCards g + 1
       \<and> newCardTitle (handleAddCard now g) = []
       \<and> isAddingCard (handleAddCard now g) = False
       \<and> likedCards (handleAddCard now g) = likedCards g
       \<and> ((\<forall>c \<in> set (cards g). card_id c \<in> card_id ` set initialCards
                                  \<or> (\<exists>t. t \<noteq> now \<and> card_id c = new_id t))
            \<longrightarrow> new_id now \<notin> card_id ` set (cards g))"
  using assms new_id_not_seed [of now]
  by (auto simp add: handleAddCard_def totalCards_def Let_def)

theorem handleAddCard_appends_witness:
  "trim (newCardTitle seed_gallery) \<noteq> []
   \<and> cards (handleAddCard 5 seed_gallery)
       = initialCards @ [\<lparr>card_id = ''card-5'', title = ''Algorithms'', initialLiked = False\<rparr>]
   \<and> totalCards (handleAddCard 5 seed_gallery) = 5
   \<and> newCardTitle (handleAddCard 5 seed_gallery) = []
   \<and> ''card-5'' \<notin> card_id ` set initialCards"
proof -
  have t: "trim (newCardTitle seed_gallery) = ''Algorithms''"
    by (simp add: seed_gallery_def trim_def is_space_def)
  have n: "trim (newCardTitle seed_gallery) \<noteq> []" using t by simp
  have c: "cards seed_gallery = initialCards" and "totalCards seed_gallery = 4"
    by (simp_all add: seed_gallery_def totalCards_def initialCards_def)
  then show ?thesis
    using handleAddCard_appends [OF n, of 5] t new_id_5 by simp
qed

text \<open>
  The claim as stated fails when the clock has not moved since the last card was
  created: after one card has been created at reading 5 and a second title typed, the
  card appended at reading 5 has an id that is already listed.
\<close>

theorem handleAddCard_id_collision_counterexample:
  "trim (newCardTitle (run malformed second_title_typed (initial_load malformed Map.empty))) \<noteq> []
   \<and> card_id (last (cards (handleAddCard 5
          (run malformed second_title_typed (initial_load malformed Map.empty)))))
       \<in> card_id ` set (cards (run malformed second_title_typed (initial_load malformed Map.empty)))"
  by code_simp

text \<open>
  C5, as amended. A confirmed delete of a card with a non-empty id removes the card's
  entry from the store and calls the Gallery's handler, which drops from the list
  every card with that id and takes the id out of the liked set. When the listed ids
  are distinct and the id is listed, exactly one entry goes, the one with the id, and
  the others keep their order; when the id is not listed the list is unchanged.
\<close>

theorem delete_removes_matching:
  assumes "k \<noteq> []"
  shows "handleDelete True (Some k) (Some handleCardDelete) (st, g)
           = (removeItem st (storage_key k), handleCardDelete (Some k) g)
       \<and> cards (handleCardDelete (Some k) g) = filter (\<lambda>c. card_id c \<noteq> k) (cards g)
       \<and> (distinct (map card_id (cards g)) \<and> k \<in> card_id ` set (cards g) \<longrightarrow>
            (\<exists>xs c ys. cards g = xs @ c # ys \<and> card_id c = k
                        \<and> cards (handleCardDelete (Some k) g) = xs @ ys))
       \<and> Some k \<notin> set (likedCards (handleCardDelete (Some k) g))
       \<and> getItem (removeItem st (storage_key k)) (storage_key k) = None
       \<and> (k \<notin> card_id ` set (cards g) \<longrightarrow> cards (handleCardDelete (Some k) g) = cards g)"
proof -
  have "\<exists>xs c ys. cards g = xs @ c # ys \<and> card_id c = k
          \<and> cards (handleCardDelete (Some k) g) = xs @ ys"
    if d: "distinct (map card_id (cards g))" and "k \<in> card_id ` set (cards g)"
  proof -
    from that obtain c where "c \<in> set (cards g)" and ck: "card_id c = k" by auto
    then obtain xs ys where sp: "cards g = xs @ c # ys" by (meson split_list)
    with d ck have "k \<notin> card_id ` set xs" and "k \<notin> card_id ` set ys" by auto
    then have "filter (\<lambda>c. card_id c \<noteq> k) xs = xs" and "filter (\<lambda>c. card_id c \<noteq> k) ys = ys"
      by (auto simp add: filter_id_conv)
    with sp ck have "cards (handleCardDelete (Some k) g) = xs @ ys"
      by (simp add: handleCardDelete_def)
    with sp ck show ?thesis by blast
  qed
  moreover have "cards (handleCardDelete (Some k) g) = cards g" if "k \<notin> card_id ` set (cards g)"
    using that by (auto simp add: handleCardDelete_def filter_id_conv)
  ultimately show ?thesis
    using assms by (simp add: handleDelete_eq handleCardDelete_def getItem_def removeItem_def)
qed

theorem delete_removes_matching_witness:
  "cards (handleCardDelete (Some ''react-dev'') seed_gallery) = tl initialCards
   \<and> Some ''react-dev'' \<notin> set (likedCards (handleCardDelete (Some ''react-dev'') seed_gallery))
   \<and> fst (handleDelete True (Some ''react-dev'') (Some handleCardDelete)
            (react_liked, seed_gallery)) (storage_key ''react-dev'') = None"
proof -
  have k: "''react-dev'' \<noteq> []" by simp
  have "cards (handleCardDelete (Some ''react-dev'') seed_gallery) = tl initialCards"
    by (simp add: handleCardDelete_def seed_gallery_def initialCards_def)
  then show ?thesis
    using delete_removes_matching [OF k, of react_liked seed_gallery]
    by (simp add: getItem_def)
qed

text \<open>
  The claim as stated fails on a list with a repeated id: after two cards have been
  created at the same reading of the clock, deleting one of them takes both away.
\<close>

theorem delete_removes_two_counterexample:
  "length (cards (run malformed two_adds_one_ms (initial_load malformed Map.empty))) = 6
   \<and> length (cards (step malformed (ClickDelete ''card-5'' True)
        (run malformed two_adds_one_ms (initial_load malformed Map.empty)))) = 4"
  by code_simp

section \<open>The error boundary on the page\<close>

text \<open>
  C8, as amended. A throw while the boundary's children render is caught: the
  boundary takes the error and what was the header, the card-list region and the
  footer is the error panel alone. While the boundary holds an error the page shows
  only the panel. Try Again leaves the Gallery's state (card list, liked set, pending
  title, form) and the store as they are and mounts the cards anew: when every
  initialiser returns, the boundary's error is cleared and header, card list and
  footer are shown again, the cards with the states just seeded; when an initialiser
  throws again, the panel is shown again.
\<close>

theorem boundary_catch_and_reset:
  "(\<not> hasError (boundary p) \<and> mount_all other (store p) (cards p) (instances p) = Inl e \<longrightarrow>
      boundary (commit other p) = getDerivedStateFromError e
      \<and> App_render (commit other p) = [ErrorPanel])
   \<and> (hasError (boundary p) \<longrightarrow>
        App_render p = [ErrorPanel]
        \<and> cards (step other TryAgain p) = cards p
        \<and> likedCards (step other TryAgain p) = likedCards p
        \<and> newCardTitle (step other TryAgain p) = newCardTitle p
        \<and> isAddingCard (step other TryAgain p) = isAddingCard p
        \<and> store (step other TryAgain p) = store p
        \<and> (mount_all other (store p) (cards p) (instances p) = Inr m \<longrightarrow>
             boundary (step other TryAgain p) = \<lparr>hasError = False, error = None\<rparr>
             \<and> instances (step other TryAgain p) = m
             \<and> App_render (step other TryAgain p) =
                 [Header (totalCards p) (likeCount p) (int (totalCards p) - int (likeCount p))
                    (if isAddingCard p then AddForm (newCardTitle p) (trim (newCardTitle p) = [])
                     else AddButton),
                  (if cards p = [] then EmptyState
                   else CardsGrid (List.map_filter (Card_render m) (cards p))),
                  Footer])
        \<and> (mount_all other (store p) (cards p) (instances p) = Inl e \<longrightarrow>
             boundary (step other TryAgain p) = getDerivedStateFromError e
             \<and> App_render (step other TryAgain p) = [ErrorPanel]))"
  by (cases "mount_all other (store p) (cards p) (instances p)"; cases "boundary p")
    (simp_all add: step_def commit_def App_render_def ErrorBoundary_render_def
      ErrorBoundary_reset_def getDerivedStateFromError_def totalCards_def likeCount_def)

text \<open>
  A page loaded on a store whose entry for the first seed card is not JSON text shows
  the panel; Try Again keeps the store and the four cards.
\<close>

theorem boundary_catch_and_reset_witness:
  "hasError (boundary (initial_load malformed broken_store))
   \<and> App_render (initial_load malformed broken_store) = [ErrorPanel]
   \<and> store (step malformed TryAgain (initial_load malformed broken_store)) = broken_store
   \<and> map card_id (cards (step malformed TryAgain (initial_load malformed broken_store)))
       = map card_id initialCards"
proof -
  have h: "hasError (boundary (initial_load malformed broken_store))" by code_simp
  have s: "store (initial_load malformed broken_store) = broken_store"
    by (simp add: initial_load_def effect_def commit_def split: sum.splits)
  have c: "cards (initial_load malformed broken_store) = initialCards"
    by (simp add: initial_load_def effect_def commit_def split: sum.splits)
  show ?thesis
    using boundary_catch_and_reset
        [of "initial_load malformed broken_store" malformed SyntaxError Map.empty] h s c
    by simp
qed

text \<open>
  The claim as stated fails on that page: the panel stands in place of header and
  footer as well, not of the card list alone, and Try Again brings the panel back.
\<close>

theorem boundary_replaces_whole_page_counterexample:
  "Footer \<notin> set (App_render (initial_load malformed broken_store))
   \<and> App_render (initial_load malformed broken_store) = [ErrorPanel]
   \<and> App_render (step malformed TryAgain (initial_load malformed broken_store)) = [ErrorPanel]"
  by code_simp

section \<open>The liked count and the cards shown as liked\<close>

lemma liked_in_store_other_key:
  "card_id c \<noteq> k \<Longrightarrow> liked_in_store (st(storage_key k := v)) c = liked_in_store st c"
  by (simp add: liked_in_store_def getItem_def)

lemma liked_in_store_written:
  "card_id c = k \<Longrightarrow> liked_in_store (st(storage_key k \<mapsto> JSON_stringify b)) c = b"
  by (simp add: liked_in_store_def getItem_def JSON_stringify_def)

lemma wf_store_write: "wf_store st \<Longrightarrow> wf_store (st(storage_key k \<mapsto> JSON_stringify b))"
  by (simp add: wf_store_def getItem_def JSON_stringify_def)

lemma wf_store_remove: "wf_store st \<Longrightarrow> wf_store (st(storage_key k := None))"
  by (simp add: wf_store_def getItem_def)

text \<open>On a well-formed store no initialiser throws, and every card gets its boolean.\<close>

lemma mount_all_ok:
  assumes "wf_store st"
  shows "(\<forall>c \<in> set cs. card_id c \<noteq> []) \<Longrightarrow> distinct (map card_id cs) \<Longrightarrow>
     (\<forall>c \<in> set cs. old (card_id c) = None \<or> old (card_id c) = Some (JBool (liked_in_store st c))) \<Longrightarrow>
     \<exists>m. mount_all other st cs old = Inr m \<and> dom m = card_id ` set cs
          \<and> (\<forall>c \<in> set cs. m (card_id c) = Some (JBool (liked_in_store st c)))"
proof (induction cs)
  case Nil
  then show ?case by simp
next
  case (Cons c cs)
  then obtain m where m: "mount_all other st cs old = Inr m" "dom m = card_id ` set cs"
    "\<forall>c \<in> set cs. m (card_id c) = Some (JBool (liked_in_store st c))"
    by auto
  have ne: "card_id c \<noteq> []" using Cons.prems(1) by auto
  have "getItem st (storage_key (card_id c)) \<in> {None, Some ''true'', Some ''false''}"
    using assms by (simp add: wf_store_def)
  then have init:
    "Card_init other st (Some (card_id c)) (initialLiked c) = Inr (JBool (liked_in_store st c))"
    using Card_init_wf [OF ne] by (simp add: liked_in_store_def Let_def)
  have v: "(case old (card_id c) of Some v \<Rightarrow> Inr v
            | None \<Rightarrow> Card_init other st (Some (card_id c)) (initialLiked c))
           = Inr (JBool (liked_in_store st c))"
    using Cons.prems(3) init by (auto split: option.splits)
  have "card_id c \<notin> card_id ` set cs" using Cons.prems(2) by simp
  then have fresh: "\<forall>c' \<in> set cs. card_id c' \<noteq> card_id c" by (metis imageI)
  show ?case
    using m v fresh by (auto simp add: dom_def)
qed

text \<open>On a consistent page the count is the number of cards shown as liked.\<close>

lemma consistent_count:
  assumes "consistent p"
  shows "likeCount p = renderedLiked p"
proof -
  let ?L = "liked_in_store (store p)"
  from assms have ne: "\<not> hasError (boundary p)" and d: "distinct (map card_id (cards p))"
    and inst: "\<forall>c \<in> set (cards p). instances p (card_id c) = Some (JBool (?L c))"
    and dl: "distinct (likedCards p)"
    and sl: "set (likedCards p) = set (likedSet (store p) (cards p))"
    by (simp_all add: consistent_def)
  have inj: "inj_on (\<lambda>c. Some (card_id c)) (set (cards p))"
    using d by (auto simp add: distinct_map inj_on_def)
  have dc: "distinct (cards p)" using d by (simp add: distinct_map)
  have "likeCount p = card (set (likedCards p))"
    using dl by (simp add: likeCount_def distinct_card)
  also have "\<dots> = card ((\<lambda>c. Some (card_id c)) ` {c \<in> set (cards p). ?L c})"
    by (simp add: sl set_likedSet)
  also have "\<dots> = card {c \<in> set (cards p). ?L c}"
    by (rule card_image) (rule inj_on_subset [OF inj], auto)
  also have "\<dots> = length (filter ?L (cards p))"
    using dc by (metis distinct_card distinct_filter set_filter)
  finally have lhs: "likeCount p = length (filter ?L (cards p))" .
  have mf: "List.map_filter (Card_render (instances p)) cs
            = map (\<lambda>c. (title c, statusLabel (JBool (?L c)))) cs"
    if "set cs \<subseteq> set (cards p)" for cs
    using that inst by (induction cs) (auto simp add: List.map_filter_simps Card_render_def)
  have "length (filter (\<lambda>v. snd v = ''Liked'') (map (\<lambda>c. (title c, statusLabel (JBool (?L c)))) cs))
        = length (filter ?L cs)" for cs
    by (induction cs) (auto simp add: statusLabel_def)
  then have "renderedLiked p = length (filter ?L (cards p))"
    using ne mf [of "cards p"]
    by (simp add: renderedLiked_def App_render_def ErrorBoundary_render_def)
  with lhs show ?thesis by simp
qed

text \<open>A render pass followed by the effect makes a page consistent.\<close>

lemma consistent_rerender:
  assumes "\<not> hasError (boundary q)" and "distinct (map card_id (cards q))"
    and "\<forall>c \<in> set (cards q). card_id c \<noteq> []" and "wf_store (store q)"
    and "\<forall>c \<in> set (cards q). instances q (card_id c) = None
            \<or> instances q (card_id c) = Some (JBool (liked_in_store (store q) c))"
  shows "consistent (effect (commit other q))"
proof -
  obtain m where m: "mount_all other (store q) (cards q) (instances q) = Inr m"
    "dom m = card_id ` set (cards q)"
    "\<forall>c \<in> set (cards q). m (card_id c) = Some (JBool (liked_in_store (store q) c))"
    using mount_all_ok [OF assms(4) assms(3) assms(2) assms(5)] by blast
  have "effect (commit other q) = q\<lparr>likedCards := likedSet (store q) (cards q), instances := m\<rparr>"
    using assms(1) m(1) by (simp add: effect_def commit_def)
  then show ?thesis
    using assms m(2,3) by (simp add: consistent_def)
qed

lemma consistent_initial_load:
  assumes "wf_store st"
  shows "consistent (initial_load other st)"
  unfolding initial_load_def
  by (rule consistent_rerender) (simp_all add: assms ErrorBoundary_init_def initialCards_def)

lemma consistent_submit:
  assumes "consistent p" and "new_id now \<notin> card_id ` set (cards p)"
  shows "consistent (submit other now p)"
proof (cases "trim (newCardTitle p) = []")
  case True
  then show ?thesis using assms(1) by (simp add: submit_def handleAddCard_def)
next
  case False
  let ?q = "handleAddCard now p"
  let ?new = "\<lparr>card_id = new_id now, title = trim (newCardTitle p), initialLiked = False\<rparr>"
  have q: "?q = p\<lparr>cards := cards p @ [?new], newCardTitle := [], isAddingCard := False\<rparr>"
    using False by (simp add: handleAddCard_def Let_def)
  have none: "instances p (new_id now) = None"
    using assms by (auto simp add: consistent_def)
  have "consistent (effect (commit other ?q))"
  proof (rule consistent_rerender)
    show "\<not> hasError (boundary ?q)" using assms(1) by (simp add: q consistent_def)
    show "distinct (map card_id (cards ?q))" using assms by (simp add: q consistent_def)
    show "\<forall>c \<in> set (cards ?q). card_id c \<noteq> []" using assms(1) by (simp add: q consistent_def)
    show "wf_store (store ?q)" using assms(1) by (simp add: q consistent_def)
    show "\<forall>c \<in> set (cards ?q). instances ?q (card_id c) = None
            \<or> instances ?q (card_id c) = Some (JBool (liked_in_store (store ?q) c))"
      using assms(1) none by (auto simp add: q consistent_def)
  qed
  then show ?thesis using False by (simp add: submit_def)
qed

lemma consistent_click_delete:
  assumes "consistent p"
  shows "consistent (click_delete other k confirmed p)"
proof (cases "instances p k")
  case None
  then show ?thesis using assms by (simp add: click_delete_def)
next
  case (Some v)
  show ?thesis
  proof (cases confirmed)
    case False
    then show ?thesis using assms Some by (simp add: click_delete_def handleDelete_eq)
  next
    case True
    have "k \<in> card_id ` set (cards p)" using assms Some by (auto simp add: consistent_def)
    then have kne: "k \<noteq> []" using assms by (auto simp add: consistent_def)
    let ?q = "p\<lparr>cards := filter (\<lambda>c. card_id c \<noteq> k) (cards p),
                 likedCards := set_delete (Some k) (likedCards p),
                 store := (store p)(storage_key k := None)\<rparr>"
    have cd: "click_delete other k confirmed p = effect (commit other ?q)"
      using Some True kne
      by (simp add: click_delete_def handleDelete_eq handleCardDelete_def removeItem_def)
    have "consistent (effect (commit other ?q))"
    proof (rule consistent_rerender)
      show "\<not> hasError (boundary ?q)" using assms by (simp add: consistent_def)
      show "distinct (map card_id (cards ?q))"
        using assms by (simp add: consistent_def distinct_map_filter)
      show "\<forall>c \<in> set (cards ?q). card_id c \<noteq> []" using assms by (auto simp add: consistent_def)
      show "wf_store (store ?q)" using assms by (simp add: consistent_def wf_store_remove)
      show "\<forall>c \<in> set (cards ?q). instances ?q (card_id c) = None
              \<or> instances ?q (card_id c) = Some (JBool (liked_in_store (store ?q) c))"
        using assms by (simp add: consistent_def liked_in_store_other_key)
    qed
    with cd show ?thesis by simp
  qed
qed

lemma consistent_click_like:
  assumes "consistent p"
  shows "consistent (click_like k p)"
proof (cases "instances p k")
  case None
  then show ?thesis using assms by (simp add: click_like_def)
next
  case (Some v)
  let ?L = "liked_in_store (store p)"
  let ?f = "\<lambda>c. Some (card_id c)"
  from assms have d: "distinct (map card_id (cards p))"
    and dom: "dom (instances p) = card_id ` set (cards p)"
    and inst: "\<forall>c \<in> set (cards p). instances p (card_id c) = Some (JBool (?L c))"
    and ne: "\<forall>c \<in> set (cards p). card_id c \<noteq> []"
    and dl: "distinct (likedCards p)"
    and sl: "set (likedCards p) = ?f ` {c \<in> set (cards p). ?L c}"
    by (simp_all add: consistent_def set_likedSet)
  have "k \<in> dom (instances p)" using Some by blast
  then have "k \<in> card_id ` set (cards p)" using dom by simp
  then obtain c0 where c0: "c0 \<in> set (cards p)" "card_id c0 = k" by blast
  have uniq: "\<forall>c \<in> set (cards p). (card_id c = k) = (c = c0)"
    using c0 d by (metis distinct_map inj_onD)
  have v: "v = JBool (?L c0)" using inst c0 Some by auto
  have kne: "k \<noteq> []" using ne c0 by auto
  let ?b = "\<not> ?L c0"
  let ?st = "(store p)(storage_key k \<mapsto> JSON_stringify ?b)"
  let ?q = "p\<lparr>likedCards := (if ?b then set_add (Some k) (likedCards p)
                               else set_delete (Some k) (likedCards p)),
               instances := (instances p)(k \<mapsto> JBool ?b),
               store := ?st\<rparr>"
  have cl: "click_like k p = ?q"
    using Some v kne by (simp add: click_like_def toggleLike_eq handleLikeChange_def setItem_def)
  have L': "liked_in_store ?st c = (if card_id c = k then ?b else ?L c)" for c
    using liked_in_store_written [of c k "store p" ?b]
      liked_in_store_other_key [of c k "store p" "Some (JSON_stringify ?b)"]
    by auto
  have A: "{c \<in> set (cards p). liked_in_store ?st c}
           = (if ?b then insert c0 {c \<in> set (cards p). ?L c} else {c \<in> set (cards p). ?L c} - {c0})"
    using c0 uniq by (auto simp add: L')
  have img: "?f ` ({c \<in> set (cards p). ?L c} - {c0}) = ?f ` {c \<in> set (cards p). ?L c} - {Some k}"
    using c0 uniq by auto
  have s': "set (likedCards ?q) = set (likedSet (store ?q) (cards ?q))"
    using c0 by (simp add: set_likedSet A sl img)
  have i': "\<forall>c \<in> set (cards ?q). instances ?q (card_id c) = Some (JBool (liked_in_store (store ?q) c))"
    using inst by (simp add: L')
  have d': "dom (instances ?q) = card_id ` set (cards ?q)"
    using dom c0 by auto
  have "consistent ?q"
    unfolding consistent_def
    using assms s' i' d' dl by (simp add: consistent_def wf_store_write)
  with cl show ?thesis by simp
qed

lemma consistent_step:
  assumes "consistent p" and "\<And>t. ev = Submit t \<Longrightarrow> new_id t \<notin> card_id ` set (cards p)"
  shows "consistent (step other ev p)"
proof -
  have ne: "\<not> hasError (boundary p)" using assms(1) by (simp add: consistent_def)
  show ?thesis
  proof (cases ev)
    case (Submit t)
    then show ?thesis
      using ne assms consistent_submit [of p t other] by (simp add: step_def)
  next
    case (ClickLike k)
    then show ?thesis using ne assms(1) consistent_click_like [of p k] by (simp add: step_def)
  next
    case (ClickDelete k c)
    then show ?thesis
      using ne assms(1) consistent_click_delete [of p other k c] by (simp add: step_def)
  qed (use ne assms(1) in \<open>auto simp add: step_def handleKeyPress_def consistent_def\<close>)
qed

subsection \<open>The ids on the page come from the seeds and the clock\<close>

lemma cards_effect [simp]: "cards (effect q) = cards q"
  by (simp add: effect_def)

lemma cards_commit [simp]: "cards (commit other q) = cards q"
  by (simp add: commit_def split: sum.splits)

lemma cards_click_like [simp]: "cards (click_like k p) = cards p"
  by (simp add: click_like_def toggleLike_eq handleLikeChange_def split: option.splits)

lemma cards_click_delete:
  "cards (click_delete other k confirmed p)
     = (if confirmed \<and> instances p k \<noteq> None then filter (\<lambda>c. card_id c \<noteq> k) (cards p)
        else cards p)"
  by (simp add: click_delete_def handleDelete_eq handleCardDelete_def split: option.splits)

lemma cards_submit:
  "cards (submit other now p)
     = (if trim (newCardTitle p) \<noteq> []
        then cards p @ [\<lparr>card_id = new_id now, title = trim (newCardTitle p), initialLiked = False\<rparr>]
        else cards p)"
  by (simp add: submit_def handleAddCard_def Let_def)

lemma ids_step:
  "card_id ` set (cards (step other ev p))
     \<subseteq> card_id ` set (cards p) \<union> new_id ` set (clock_readings [ev])"
proof (cases ev)
  case (Submit t)
  then show ?thesis by (auto simp add: step_def cards_submit)
next
  case (ClickDelete k c)
  then show ?thesis by (auto simp add: step_def cards_click_delete)
next
  case (KeyPress key)
  then show ?thesis by (simp add: step_def handleKeyPress_def)
qed (simp_all add: step_def)

lemma ids_run:
  "card_id ` set (cards (run other evs p)) \<subseteq> card_id ` set (cards p) \<union> range new_id"
proof (induction evs arbitrary: p)
  case Nil
  then show ?case by simp
next
  case (Cons ev evs)
  have "card_id ` set (cards (step other ev p)) \<subseteq> card_id ` set (cards p) \<union> range new_id"
    using ids_step [of other ev p] by blast
  then have "card_id ` set (cards (run other evs (step other ev p)))
               \<subseteq> card_id ` set (cards p) \<union> range new_id"
    using Cons.IH [of "step other ev p"] by blast
  then show ?case by simp
qed

text \<open>Every card the Gallery ever lists has an id that is not empty.\<close>

lemma listed_ids_nonempty:
  assumes "c \<in> set (cards (run other evs (initial_load other st)))"
  shows "card_id c \<noteq> []"
proof -
  have "card_id c \<in> card_id ` set initialCards \<union> range new_id"
    using assms ids_run [of other evs "initial_load other st"]
    by (auto simp add: initial_load_def)
  then show ?thesis by (auto simp add: initialCards_def)
qed

lemma consistent_run:
  assumes "consistent p"
    and "card_id ` set (cards p) \<subseteq> card_id ` set initialCards \<union> new_id ` T"
    and "distinct (clock_readings evs)" and "set (clock_readings evs) \<inter> T = {}"
  shows "consistent (run other evs p)"
  using assms
proof (induction evs arbitrary: p T)
  case Nil
  then show ?case by simp
next
  case (Cons ev evs)
  let ?T = "T \<union> set (clock_readings [ev])"
  have fresh: "new_id t \<notin> card_id ` set (cards p)" if "ev = Submit t" for t
  proof -
    have "t \<notin> T" using that Cons.prems(4) by auto
    then have "new_id t \<notin> new_id ` T" by auto
    then show ?thesis using Cons.prems(2) new_id_not_seed [of t] by blast
  qed
  have c: "consistent (step other ev p)"
    using Cons.prems(1) fresh by (rule consistent_step)
  have ids: "card_id ` set (cards (step other ev p)) \<subseteq> card_id ` set initialCards \<union> new_id ` ?T"
    using ids_step [of other ev p] Cons.prems(2) by blast
  have d: "distinct (clock_readings evs)" and i: "set (clock_readings evs) \<inter> ?T = {}"
    using Cons.prems(3,4) by (cases ev, auto)+
  show ?case
    using Cons.IH [OF c ids d i] by simp
qed

text \<open>
  C1, as amended. Load the page on a store whose entries under card keys are
  \<^verbatim>\<open>"true"\<close> or \<^verbatim>\<open>"false"\<close>, and let the user do anything (like, add, delete with either
  answer, type, cancel) as long as no two submissions of the form read the same value
  from the clock. Then the liked count is the number of cards on the screen whose
  label is Liked.
\<close>

theorem liked_count_equals_rendered:
  assumes "wf_store st" and "distinct (clock_readings evs)"
  shows "likeCount (run other evs (initial_load other st))
         = renderedLiked (run other evs (initial_load other st))"
proof -
  have "card_id ` set (cards (initial_load other st)) \<subseteq> card_id ` set initialCards \<union> new_id ` {}"
    by (simp add: initial_load_def)
  then have "consistent (run other evs (initial_load other st))"
    using consistent_initial_load [OF assms(1)] assms(2)
    by (intro consistent_run [where T = "{}"]) auto
  then show ?thesis by (rule consistent_count)
qed

lemma wf_store_design_liked: "wf_store design_liked"
  by (simp add: wf_store_def getItem_def design_liked_def)

lemma session_count: "likeCount (run malformed session (initial_load malformed design_liked)) = 2"
  by code_simp

theorem liked_count_equals_rendered_witness:
  "wf_store design_liked \<and> distinct (clock_readings session)
   \<and> renderedLiked (run malformed session (initial_load malformed design_liked)) = 2"
  using liked_count_equals_rendered [of design_liked session malformed]
    session_count wf_store_design_liked
  by (simp add: session_def)

text \<open>
  The claim as stated fails when two cards are created at the same reading of the
  clock: they share an id, and once the first has been liked the liked set holds the
  id once while both cards are shown as liked.
\<close>

theorem liked_count_same_clock_counterexample:
  "likeCount (run malformed like_between_adds (initial_load malformed Map.empty))
   \<noteq> renderedLiked (run malformed like_between_adds (initial_load malformed Map.empty))"
  by code_simp

text \<open>
  It also fails on a store with an entry no card has written: the Gallery counts the
  third seed card while the panel of the boundary shows no card at all.
\<close>

lemma liked_count_foreign_entry:
  "likeCount (initial_load malformed broken_store) = 1
   \<and> renderedLiked (initial_load malformed broken_store) = 0"
  by code_simp


end
